theory Spec2Isabelle
  imports Complex_Main "HOL-Library.Log_Nat"
begin

section \<open>Data of the recording analysis\<close>

text \<open>
  The embedding follows \<^verbatim>\<open>src/analyze-recording.py\<close>. Sample values and rates are
  NumPy floats (IEEE binary64) in the source; they are read here as real numbers, so
  every comparison, maximum and sign is the source's. The rounding of a product or
  quotient is represented where the program takes the floor or the ceiling of it
  (lines 221 and 280), since the integer depends on the rounding; elsewhere it is not.
  Sample offsets are array indexes (\<^typ>\<open>nat\<close>).

  An exception of the source is a value of \<open>error\<close>; a run that raises ends with a
  non-zero exit status.
\<close>

datatype error = AssertionError | ValueError | IndexError | ZeroDivisionError

text \<open>
  The \<^verbatim>\<open>pd.Series\<close> named \<^verbatim>\<open>edges\<close>: one entry per edge, the index (offset)
  first, the boolean second (\<^verbatim>\<open>False\<close> falling, \<^verbatim>\<open>True\<close> rising, as the docstring
  of \<^verbatim>\<open>find_edges\<close> says). The index type changes from offsets to timestamps at
  line 347, hence the type parameter.
\<close>

type_synonym 'i series = "('i \<times> bool) list"

datatype colour = Black | White

text \<open>
  What the run prints on \<^verbatim>\<open>sys.stderr\<close>, one constructor per \<^verbatim>\<open>print\<close> statement of
  lines 272--343, carrying the values the f-string formats.
  \<open>SamePolarityWarning first\<close> is line 335; \<open>Deduced first last falling_to rising_to\<close>
  is line 340 with the two colours its text names.
\<close>

datatype message =
    TestSignalBounds nat nat
  | Upsampling real real
  | SlopeRange real real
  | FindingEdges real real int int real real
  | Detected nat
  | SamePolarityWarning bool
  | Deduced bool bool colour colour

text \<open>The numeric command line arguments of \<^verbatim>\<open>parse_arguments\<close> (lines 32--79).\<close>

record args =
  min_edge_separation_seconds :: real
  boundaries_signal_frames :: int
  boundaries_score_threshold_ratio :: real
  timestamp_resolution_seconds :: real
  minimum_negative_slope_peak_height_ratio :: real
  minimum_positive_slope_peak_height_ratio :: real
  minimum_negative_slope_peak_prominence_ratio :: real
  minimum_positive_slope_peak_prominence_ratio :: real

text \<open>
  Two library routines whose results are numerical or not fixed by their documentation
  are parameters of the model, so every theorem holds whatever they return:
  \<^verbatim>\<open>scipy.signal.resample_poly(x, up, down)\<close>, which may raise, and \<^verbatim>\<open>np.argsort\<close>,
  whose order among equal keys is unspecified.
\<close>

record library =
  resample_poly :: "real list \<Rightarrow> real \<Rightarrow> real \<Rightarrow> error + real list"
  argsort :: "real list \<Rightarrow> nat list"

section \<open>NumPy helpers\<close>

text \<open>\<^verbatim>\<open>np.max\<close> and \<^verbatim>\<open>.min()\<close> raise \<^verbatim>\<open>ValueError\<close> on an empty array.\<close>

definition np_max :: "real list \<Rightarrow> error + real" where
  "np_max xs = (case xs of [] \<Rightarrow> Inl ValueError | x # rest \<Rightarrow> Inr (fold max rest x))"

definition np_min :: "real list \<Rightarrow> error + real" where
  "np_min xs = (case xs of [] \<Rightarrow> Inl ValueError | x # rest \<Rightarrow> Inr (fold min rest x))"

text \<open>\<^verbatim>\<open>np.nonzero(flags)[0]\<close>: the indexes of the true entries, ascending.\<close>

definition nonzero :: "bool list \<Rightarrow> nat list" where
  "nonzero flags = filter (\<lambda>i. flags ! i) [0..<length flags]"

text \<open>\<^verbatim>\<open>xs[a:b]\<close> for indexes \<open>a\<close>, \<open>b\<close> that are not negative; Python clips at the end.\<close>

definition slice :: "'a list \<Rightarrow> nat \<Rightarrow> nat \<Rightarrow> 'a list" where
  "slice xs a b = take (b - a) (drop a xs)"

text \<open>\<^verbatim>\<open>int(x)\<close> of a float truncates towards zero.\<close>

definition py_int :: "real \<Rightarrow> int" where
  "py_int x = (if 0 \<le> x then \<lfloor>x\<rfloor> else \<lceil>x\<rceil>)"

text \<open>\<^verbatim>\<open>peaks[keep]\<close>: the entries of an array selected by a boolean mask.\<close>

definition select :: "'a list \<Rightarrow> bool list \<Rightarrow> 'a list" where
  "select xs keep = map fst (filter snd (zip xs keep))"

section \<open>Rounding to binary64\<close>

text \<open>
  A Python or NumPy division of two doubles returns the double nearest to the exact
  quotient, ties going to the even significand. \<open>binary64 x\<close> is that double for a real
  \<open>x\<close>: with \<open>e\<close> the exponent of \<open>x\<close> (\<open>2 ^ e \<le> |x| < 2 ^ (e + 1)\<close>), \<open>|x|\<close> is scaled to
  a number from \<open>2 ^ 52\<close> to \<open>2 ^ 53\<close>, rounded to an integer and scaled back. Overflow
  and subnormal numbers (magnitudes beyond \<open>1.8e308\<close> or below \<open>2.2e-308\<close>) are not
  represented.
\<close>

definition round_half_even :: "real \<Rightarrow> int" where
  "round_half_even y =
     (let f = \<lfloor>y\<rfloor>
      in if y - of_int f < 1 / 2 then f
         else if 1 / 2 < y - of_int f then f + 1
         else if even f then f else f + 1)"

text \<open>The exponent of a positive number, from the bit length of an integer next to it.\<close>

definition exponent :: "real \<Rightarrow> int" where
  "exponent x = (if 1 \<le> x then bitlen \<lfloor>x\<rfloor> - 1 else - bitlen (\<lceil>1 / x\<rceil> - 1))"

definition pow2 :: "int \<Rightarrow> real" where
  "pow2 k = (if 0 \<le> k then 2 ^ nat k else 1 / 2 ^ nat (- k))"

definition binary64 :: "real \<Rightarrow> real" where
  "binary64 x =
     (if x = 0 then 0
      else
        let e = exponent \<bar>x\<bar>
        in sgn x * (of_int (round_half_even (\<bar>x\<bar> * pow2 (52 - e))) * pow2 (e - 52)))"

section \<open>The downsampling ratio (lines 221--224)\<close>


section \<open>\<^verbatim>\<open>scipy.signal.find_peaks\<close>\<close>

text \<open>
  \<^verbatim>\<open>find_edges\<close> calls \<^verbatim>\<open>find_peaks(x, height=, distance=, prominence=)\<close>. The model
  follows SciPy's implementation for these three conditions, in its order: local
  maxima, height, distance, prominence.

  \<^verbatim>\<open>_local_maxima_1d\<close>: \<open>i\<close> runs from 1 while \<open>i < i_max = len(x) - 1\<close>; where
  \<open>x[i - 1] < x[i]\<close>, \<open>i_ahead\<close> moves from \<open>i + 1\<close> over samples equal to \<open>x[i]\<close> while
  \<open>i_ahead < i_max\<close>; if then \<open>x[i_ahead] < x[i]\<close>, the midpoint of the plateau
  \<open>(i + i_ahead - 1) // 2\<close> is a peak and \<open>i\<close> continues after \<open>i_ahead\<close>.
\<close>

function look_ahead :: "real list \<Rightarrow> nat \<Rightarrow> nat \<Rightarrow> nat" where
  "look_ahead x i i_ahead =
     (if i_ahead + 1 < length x \<and> x ! i_ahead = x ! i
      then look_ahead x i (i_ahead + 1) else i_ahead)"
  by pat_completeness auto
termination
  by (relation "measure (\<lambda>(x, i, i_ahead). length x - i_ahead)") auto

declare look_ahead.simps [simp del]

function local_maxima_from :: "real list \<Rightarrow> nat \<Rightarrow> nat list" where
  "local_maxima_from x i =
     (if i + 1 < length x
      then if x ! (i - 1) < x ! i
           then let i_ahead = look_ahead x i (i + 1)
                in if x ! i_ahead < x ! i
                   then ((i + (i_ahead - 1)) div 2) # local_maxima_from x (i_ahead + 1)
                   else local_maxima_from x (i + 1)
           else local_maxima_from x (i + 1)
      else [])"
  by pat_completeness auto
termination
proof (relation "measure (\<lambda>(x, i). length x - i)")
  show "wf (measure (\<lambda>(x, i). length x - i))"
    by simp
next
  fix x :: "real list" and i i_ahead :: nat
  assume bound: "i + 1 < length x" and ahead: "i_ahead = look_ahead x i (i + 1)"
  have ge: "k \<le> look_ahead x i k" for k
    by (induction x i k rule: look_ahead.induct) (subst look_ahead.simps, auto)
  from ge [of "i + 1"] ahead bound
  show "((x, i_ahead + 1), x, i) \<in> measure (\<lambda>(x, i). length x - i)"
    by auto
qed auto

declare local_maxima_from.simps [simp del]

definition local_maxima_1d :: "real list \<Rightarrow> nat list" where
  "local_maxima_1d x = local_maxima_from x 1"

text \<open>
  \<^verbatim>\<open>_select_by_peak_distance(peaks, priority, distance)\<close>: peaks are visited from the
  highest priority down (\<open>priority_to_position = np.argsort(priority)\<close>, read backwards);
  a peak still kept removes its neighbours closer than \<open>distance_ = ceil(distance)\<close>,
  first the earlier ones (\<open>k = j - 1\<close> downwards), then the later ones.
\<close>

fun flag_earlier :: "nat list \<Rightarrow> int \<Rightarrow> nat \<Rightarrow> nat \<Rightarrow> bool list \<Rightarrow> bool list" where
  "flag_earlier peaks distance j 0 keep = keep"
| "flag_earlier peaks distance j (Suc k) keep =
     (if int (peaks ! j) - int (peaks ! k) < distance
      then flag_earlier peaks distance j k (keep[k := False]) else keep)"

function flag_later :: "nat list \<Rightarrow> int \<Rightarrow> nat \<Rightarrow> nat \<Rightarrow> bool list \<Rightarrow> bool list" where
  "flag_later peaks distance j k keep =
     (if k < length peaks \<and> int (peaks ! k) - int (peaks ! j) < distance
      then flag_later peaks distance j (k + 1) (keep[k := False]) else keep)"
  by pat_completeness auto
termination
  by (relation "measure (\<lambda>(peaks, distance, j, k, keep). length peaks - k)") auto

declare flag_later.simps [simp del]

definition visit_peak :: "nat list \<Rightarrow> int \<Rightarrow> bool list \<Rightarrow> nat \<Rightarrow> bool list" where
  "visit_peak peaks distance keep j =
     (if \<not> keep ! j then keep
      else flag_later peaks distance j (j + 1) (flag_earlier peaks distance j j keep))"

definition select_by_peak_distance :: "nat list \<Rightarrow> nat list \<Rightarrow> real \<Rightarrow> bool list" where
  "select_by_peak_distance peaks priority_to_position distance =
     foldl (visit_peak peaks \<lceil>distance\<rceil>) (replicate (length peaks) True)
       (rev priority_to_position)"

text \<open>
  \<^verbatim>\<open>_peak_prominences\<close> without a window: from the peak, walk left and right while the
  samples do not exceed the peak, keeping the lowest sample seen on each side; the
  prominence is the peak's height above the higher of the two.
\<close>

fun left_min :: "real list \<Rightarrow> nat \<Rightarrow> nat \<Rightarrow> real \<Rightarrow> real" where
  "left_min x peak 0 m = m"
| "left_min x peak (Suc i) m =
     (if x ! i \<le> x ! peak then left_min x peak i (if x ! i < m then x ! i else m) else m)"

function right_min :: "real list \<Rightarrow> nat \<Rightarrow> nat \<Rightarrow> real \<Rightarrow> real" where
  "right_min x peak i m =
     (if i < length x \<and> x ! i \<le> x ! peak
      then right_min x peak (i + 1) (if x ! i < m then x ! i else m) else m)"
  by pat_completeness auto
termination
  by (relation "measure (\<lambda>(x, peak, i, m). length x - i)") auto

declare right_min.simps [simp del]

definition peak_prominence :: "real list \<Rightarrow> nat \<Rightarrow> real" where
  "peak_prominence x peak =
     x ! peak - max (left_min x peak (Suc peak) (x ! peak)) (right_min x peak peak (x ! peak))"

text \<open>
  \<^verbatim>\<open>find_peaks\<close> raises \<^verbatim>\<open>ValueError\<close> when \<open>distance < 1\<close>, before it looks for peaks.
\<close>

definition find_peaks ::
  "library \<Rightarrow> real list \<Rightarrow> real \<Rightarrow> real \<Rightarrow> real \<Rightarrow> error + nat list" where
  "find_peaks lib x height distance prominence =
     (if distance < 1 then Inl ValueError
      else
        let peaks = local_maxima_1d x;
            peaks = select peaks (map (\<lambda>p. height \<le> x ! p) peaks);
            keep = select_by_peak_distance peaks (argsort lib (map (\<lambda>p. x ! p) peaks)) distance;
            peaks = select peaks keep;
            prominences = map (peak_prominence x) peaks;
            peaks = select peaks (map (\<lambda>v. prominence \<le> v) prominences)
        in Inr peaks)"

section \<open>\<^verbatim>\<open>find_edges\<close> (lines 127--164)\<close>

text \<open>
  \<^verbatim>\<open>sort_index()\<close> orders the entries by index. Pandas does not promise the order of
  entries with equal indexes; the insertion sort used here keeps them as they came.
\<close>

definition sort_index :: "nat series \<Rightarrow> nat series" where
  "sort_index s = sort_key fst s"

definition find_edges ::
  "library \<Rightarrow> real list \<Rightarrow> real \<Rightarrow> real \<Rightarrow> real \<Rightarrow> real \<Rightarrow> real \<Rightarrow> real \<Rightarrow> error + nat series" where
  "find_edges lib slope minimum_negative_height minimum_positive_height
       minimum_falling_edge_distance minimum_rising_edge_distance
       minimum_negative_prominence minimum_positive_prominence =
     (case find_peaks lib (map uminus slope) minimum_negative_height
             minimum_falling_edge_distance minimum_negative_prominence of
        Inl e \<Rightarrow> Inl e
      | Inr falling_edge_indexes \<Rightarrow>
          (case find_peaks lib slope minimum_positive_height
                  minimum_rising_edge_distance minimum_positive_prominence of
             Inl e \<Rightarrow> Inl e
           | Inr rising_edge_indexes \<Rightarrow>
               Inr (sort_index
                      (zip (falling_edge_indexes @ rising_edge_indexes)
                           (replicate (length falling_edge_indexes) False @
                            replicate (length rising_edge_indexes) True)))))"

section \<open>Boundaries of the test signal (lines 256--278)\<close>

definition boundary_candidates :: "real \<Rightarrow> real list \<Rightarrow> error + bool list" where
  "boundary_candidates threshold_ratio cross_correlation =
     (let abs_cross_correlation = map abs cross_correlation
      in case np_max abs_cross_correlation of
           Inl e \<Rightarrow> Inl e
         | Inr m \<Rightarrow> Inr (map (\<lambda>v. v \<ge> m * threshold_ratio) abs_cross_correlation))"

text \<open>
  The result is the message of line 272, \<^verbatim>\<open>test_signal_start_index\<close>,
  \<^verbatim>\<open>test_signal_end_index\<close> and the trimmed \<^verbatim>\<open>recording_slope\<close>.
  \<open>reference_size\<close> is \<^verbatim>\<open>boundaries_reference_samples.size\<close>.
\<close>

definition locate_boundaries ::
  "args \<Rightarrow> real list \<Rightarrow> nat \<Rightarrow> real list \<Rightarrow> error + (message \<times> nat \<times> nat \<times> real list)" where
  "locate_boundaries a recording_slope reference_size cross_correlation =
     (case boundary_candidates (boundaries_score_threshold_ratio a) cross_correlation of
        Inl e \<Rightarrow> Inl e
      | Inr candidates \<Rightarrow>
          let boundary_candidate_indexes = nonzero candidates
          in if \<not> length boundary_candidate_indexes > 1 then Inl AssertionError
             else
               let test_signal_start_index = hd boundary_candidate_indexes;
                   test_signal_end_index = last boundary_candidate_indexes + reference_size
               in Inr (TestSignalBounds test_signal_start_index test_signal_end_index,
                       test_signal_start_index, test_signal_end_index,
                       slice recording_slope test_signal_start_index test_signal_end_index))"

section \<open>Upsampling (lines 280--295)\<close>

text \<open>
  Line 280: \<^verbatim>\<open>np.ceil((1 / args.timestamp_resolution_seconds) / recording_sample_rate)\<close>,
  each of the two divisions rounded to a double.
\<close>

definition upsample_ratio :: "args \<Rightarrow> real \<Rightarrow> real" where
  "upsample_ratio a recording_sample_rate =
     of_int \<lceil>binary64 (binary64 (1 / timestamp_resolution_seconds a) /
                        recording_sample_rate)\<rceil>"

text \<open>
  \<^verbatim>\<open>1 / args.timestamp_resolution_seconds\<close> divides Python floats and raises
  \<^verbatim>\<open>ZeroDivisionError\<close> at zero. The result is the message of line 286, the ratio, and
  the new \<^verbatim>\<open>recording_sample_rate\<close>, \<^verbatim>\<open>test_signal_start_index\<close>,
  \<^verbatim>\<open>test_signal_end_index\<close> and \<^verbatim>\<open>recording_slope\<close>.
\<close>

definition upsample ::
  "library \<Rightarrow> args \<Rightarrow> real \<Rightarrow> nat \<Rightarrow> nat \<Rightarrow> real list \<Rightarrow>
     error + (message \<times> real \<times> real \<times> real \<times> real \<times> real list)" where
  "upsample lib a recording_sample_rate test_signal_start_index test_signal_end_index
       recording_slope =
     (if timestamp_resolution_seconds a = 0 then Inl ZeroDivisionError
      else
        let upsampling_ratio = upsample_ratio a recording_sample_rate;
            recording_sample_rate' = recording_sample_rate * upsampling_ratio;
            test_signal_start_index' = real test_signal_start_index * upsampling_ratio;
            test_signal_end_index' = real test_signal_end_index * upsampling_ratio
        in case resample_poly lib recording_slope upsampling_ratio 1 of
             Inl e \<Rightarrow> Inl e
           | Inr recording_slope' \<Rightarrow>
               Inr (Upsampling upsampling_ratio recording_sample_rate',
                    upsampling_ratio, recording_sample_rate',
                    test_signal_start_index', test_signal_end_index', recording_slope'))"

text \<open>
  What lines 280--295 have printed when they raise: nothing when the division of
  line 280 fails, the message of line 286 when \<^verbatim>\<open>resample_poly\<close> does.
\<close>

definition upsample_printed :: "args \<Rightarrow> real \<Rightarrow> message list" where
  "upsample_printed a recording_sample_rate =
     (if timestamp_resolution_seconds a = 0 then []
      else [Upsampling (upsample_ratio a recording_sample_rate)
              (recording_sample_rate * upsample_ratio a recording_sample_rate)])"

section \<open>Edge detection (lines 297--325)\<close>

text \<open>
  Lines 297--324: the messages printed, and the series \<^verbatim>\<open>find_edges\<close> returned or the
  exception raised. The assertion of line 325 is in \<open>analyze_recording\<close> below.
\<close>

definition detect_edges ::
  "library \<Rightarrow> args \<Rightarrow> real \<Rightarrow> real list \<Rightarrow> message list \<times> (error + nat series)" where
  "detect_edges lib a recording_sample_rate recording_slope =
     (case np_min recording_slope of
        Inl e \<Rightarrow> ([], Inl e)
      | Inr recording_slope_min \<Rightarrow>
     (case np_max recording_slope of
        Inl e \<Rightarrow> ([], Inl e)
      | Inr recording_slope_max \<Rightarrow>
          let minimum_edge_distance_samples =
                py_int (min_edge_separation_seconds a * 2 * recording_sample_rate);
              minimum_negative_height =
                - recording_slope_min * minimum_negative_slope_peak_height_ratio a;
              minimum_positive_height =
                recording_slope_max * minimum_positive_slope_peak_height_ratio a;
              minimum_negative_prominence =
                - recording_slope_min * minimum_negative_slope_peak_prominence_ratio a;
              minimum_positive_prominence =
                recording_slope_max * minimum_positive_slope_peak_prominence_ratio a;
              printed =
                [SlopeRange recording_slope_min recording_slope_max,
                 FindingEdges minimum_negative_height minimum_positive_height
                   minimum_edge_distance_samples minimum_edge_distance_samples
                   minimum_negative_prominence minimum_positive_prominence]
          in (case find_edges lib recording_slope minimum_negative_height
                     minimum_positive_height (of_int minimum_edge_distance_samples)
                     (of_int minimum_edge_distance_samples)
                     minimum_negative_prominence minimum_positive_prominence of
                Inl e \<Rightarrow> (printed, Inl e)
              | Inr edges \<Rightarrow> (printed @ [Detected (length edges)], Inr edges))))"

section \<open>Polarity resolution (lines 332--345)\<close>

text \<open>\<^verbatim>\<open>~edges\<close>: every boolean negated, the index kept.\<close>

definition invert :: "'i series \<Rightarrow> 'i series" where
  "invert edges = map (\<lambda>(offset, frame). (offset, \<not> frame)) edges"

text \<open>
  \<^verbatim>\<open>edges.iloc[0]\<close> and \<^verbatim>\<open>edges.iloc[-1]\<close> raise \<^verbatim>\<open>IndexError\<close> on an empty series.
  The result is the message printed and the series bound to \<^verbatim>\<open>edges\<close> afterwards.
\<close>

definition resolve_polarity :: "'i series \<Rightarrow> error + (message \<times> 'i series)" where
  "resolve_polarity edges =
     (if edges = [] then Inl IndexError
      else
        let first_edge = snd (hd edges);
            last_edge = snd (last edges)
        in if first_edge = last_edge
           then Inr (SamePolarityWarning first_edge, edges)
           else Inr (Deduced first_edge last_edge
                       (if first_edge then Black else White)
                       (if first_edge then White else Black),
                     if \<not> first_edge then invert edges else edges))"

section \<open>Output (lines 347--348)\<close>

text \<open>
  Line 347 replaces the index by \<^verbatim>\<open>(edges.index + test_signal_start_index) /
  recording_sample_rate\<close>; line 348 writes the series as CSV to \<^verbatim>\<open>sys.stdout\<close>:
  the header, then one row per entry in the order of the series.
\<close>

datatype line = Header string string | Row real bool

definition timestamps :: "nat series \<Rightarrow> real \<Rightarrow> real \<Rightarrow> real series" where
  "timestamps edges test_signal_start_index recording_sample_rate =
     map (\<lambda>(offset, frame).
            ((real offset + test_signal_start_index) / recording_sample_rate, frame)) edges"

definition to_csv :: "real series \<Rightarrow> line list" where
  "to_csv edges =
     Header ''recording_timestamp_seconds'' ''frame'' # map (\<lambda>(t, frame). Row t frame) edges"

text \<open>
  Lines 332--348 together: what is printed on \<^verbatim>\<open>sys.stderr\<close> and what is written to
  \<^verbatim>\<open>sys.stdout\<close>.
\<close>

definition resolve_and_write ::
  "nat series \<Rightarrow> real \<Rightarrow> real \<Rightarrow> error + (message \<times> line list)" where
  "resolve_and_write edges test_signal_start_index recording_sample_rate =
     (case resolve_polarity edges of
        Inl e \<Rightarrow> Inl e
      | Inr (msg, edges') \<Rightarrow>
          Inr (msg, to_csv (timestamps edges' test_signal_start_index recording_sample_rate)))"

section \<open>The run from line 256 on\<close>

text \<open>
  \<open>analyze_recording\<close> is the part of the source's function of that name from line 256
  to its end, given the values its local variables hold there: the arguments, the
  sample rate and slope after downsampling, the size of the boundaries reference
  signal and the cross-correlation. The debugging outputs (\<^verbatim>\<open>maybe_write_wavfile\<close>,
  off unless asked for) are left out.

  The result is what was printed on \<^verbatim>\<open>sys.stderr\<close>, and either the exception that
  ended the run or what was written to \<^verbatim>\<open>sys.stdout\<close>, which only line 348 writes.
\<close>

definition analyze_recording ::
  "library \<Rightarrow> args \<Rightarrow> real \<Rightarrow> real list \<Rightarrow> nat \<Rightarrow> real list \<Rightarrow>
     message list \<times> (error + line list)" where
  "analyze_recording lib a recording_sample_rate recording_slope reference_size
       cross_correlation =
     (case locate_boundaries a recording_slope reference_size cross_correlation of
        Inl e \<Rightarrow> ([], Inl e)
      | Inr (bounds, test_signal_start_index, test_signal_end_index, trimmed) \<Rightarrow>
     (case upsample lib a recording_sample_rate test_signal_start_index
             test_signal_end_index trimmed of
        Inl e \<Rightarrow> ([bounds] @ upsample_printed a recording_sample_rate, Inl e)
      | Inr (upsampling, upsampling_ratio, recording_sample_rate',
             test_signal_start_index', test_signal_end_index', upsampled) \<Rightarrow>
     (case detect_edges lib a recording_sample_rate' upsampled of
        (printed, Inl e) \<Rightarrow> ([bounds, upsampling] @ printed, Inl e)
      | (printed, Inr edges) \<Rightarrow>
          if \<not> length edges > 0
          then ([bounds, upsampling] @ printed, Inl AssertionError)
          else
            (case resolve_and_write edges test_signal_start_index' recording_sample_rate' of
               Inl e \<Rightarrow> ([bounds, upsampling] @ printed, Inl e)
             | Inr (msg, written) \<Rightarrow>
                 ([bounds, upsampling] @ printed @ [msg], Inr written)))))"

text \<open>
  An uncaught exception ends the Python process with status 1 after the traceback;
  a run that reaches the end of the script exits with status 0.
\<close>

definition exit_status :: "message list \<times> (error + line list) \<Rightarrow> nat" where
  "exit_status run = (case snd run of Inl e \<Rightarrow> 1 | Inr written \<Rightarrow> 0)"

definition stdout :: "message list \<times> (error + line list) \<Rightarrow> line list" where
  "stdout run = (case snd run of Inl e \<Rightarrow> [] | Inr written \<Rightarrow> written)"

definition stderr :: "message list \<times> (error + line list) \<Rightarrow> message list" where
  "stderr run = fst run"

section \<open>A library for concrete runs\<close>

text \<open>
  Where a theorem is applied to a concrete run, the library is this one: the stable
  \<^verbatim>\<open>np.argsort\<close>, and a \<^verbatim>\<open>resample_poly\<close> that repeats every sample \<open>up\<close> times. The
  latter stands in for SciPy's polyphase filter, whose output values no theorem
  depends on.
\<close>

definition stable_argsort :: "real list \<Rightarrow> nat list" where
  "stable_argsort priority = map snd (sort_key fst (zip priority [0..<length priority]))"

definition hold_library :: library where
  "hold_library =
     \<lparr>resample_poly = (\<lambda>x up down. Inr (concat (map (replicate (nat \<lfloor>up\<rfloor>)) x))),
      argsort = stable_argsort\<rparr>"

text \<open>Arguments of a small run.\<close>

definition test_args :: args where
  "test_args = \<lparr>min_edge_separation_seconds = 1 / 100, boundaries_signal_frames = 11,
     boundaries_score_threshold_ratio = 1 / 2, timestamp_resolution_seconds = 1 / 100,
     minimum_negative_slope_peak_height_ratio = 3 / 10,
     minimum_positive_slope_peak_height_ratio = 3 / 10,
     minimum_negative_slope_peak_prominence_ratio = 3 / 10,
     minimum_positive_slope_peak_prominence_ratio = 3 / 10\<rparr>"

section \<open>Predicates used in the proofs\<close>

text \<open>
  Sample \<open>p\<close> ends a run of equal samples that the signal rises into: some \<open>l \<le> p\<close>
  has \<open>x[l - 1] < x[l] = ... = x[p]\<close>. Every peak of \<^verbatim>\<open>_local_maxima_1d\<close> is such
  a sample.
\<close>

definition rises_into :: "real list \<Rightarrow> nat \<Rightarrow> bool" where
  "rises_into x p \<longleftrightarrow>
     p < length x \<and> (\<exists>l\<le>p. x ! (l - 1) < x ! p \<and> (\<forall>k. l \<le> k \<and> k \<le> p \<longrightarrow> x ! k = x ! p))"

text \<open>
  The spec's boundary candidate: a position of the cross-correlation whose magnitude is
  at least the threshold ratio times the global maximum of the magnitudes.
\<close>

definition spec_boundary_candidate :: "real \<Rightarrow> real list \<Rightarrow> nat \<Rightarrow> bool" where
  "spec_boundary_candidate threshold_ratio cross_correlation i \<longleftrightarrow>
     i < length cross_correlation \<and>
     \<bar>cross_correlation ! i\<bar> \<ge> threshold_ratio * Max (set (map abs cross_correlation))"

section \<open>Peaks are local maxima\<close>

lemma look_ahead_ge: "k \<le> look_ahead x i k"
  by (induction x i k rule: look_ahead.induct) (subst look_ahead.simps, auto)

lemma look_ahead_less: "k < length x \<Longrightarrow> look_ahead x i k < length x"
  by (induction x i k rule: look_ahead.induct) (subst look_ahead.simps, auto)

lemma look_ahead_plateau: "k \<le> j \<Longrightarrow> j < look_ahead x i k \<Longrightarrow> x ! j = x ! i"
proof (induction x i k rule: look_ahead.induct)
  case (1 x i i_ahead)
  show ?case
  proof (cases "i_ahead + 1 < length x \<and> x ! i_ahead = x ! i")
    case True
    with "1.prems" have later: "j < look_ahead x i (i_ahead + 1)"
      by (subst (asm) look_ahead.simps) simp
    show ?thesis
    proof (cases "j = i_ahead")
      case True
      with \<open>i_ahead + 1 < length x \<and> x ! i_ahead = x ! i\<close> show ?thesis by simp
    next
      case False
      with "1.prems" have "i_ahead + 1 \<le> j" by simp
      with "1.IH" True later show ?thesis by simp
    qed
  next
    case False
    with "1.prems" show ?thesis
      by (subst (asm) look_ahead.simps) auto
  qed
qed

lemma local_maxima_from_props:
  "p \<in> set (local_maxima_from x i) \<Longrightarrow> i \<le> p \<and> rises_into x p"
proof (induction x i rule: local_maxima_from.induct)
  case (1 x i)
  show ?case
  proof (cases "i + 1 < length x")
    case False
    with "1.prems" show ?thesis
      by (subst (asm) local_maxima_from.simps) simp
  next
    case bound: True
    show ?thesis
    proof (cases "x ! (i - 1) < x ! i")
      case False
      with bound "1.prems" have "p \<in> set (local_maxima_from x (i + 1))"
        by (subst (asm) local_maxima_from.simps) simp
      with "1.IH"(3) bound False show ?thesis by fastforce
    next
      case rise: True
      define i_ahead where "i_ahead = look_ahead x i (i + 1)"
      have ge: "i + 1 \<le> i_ahead"
        unfolding i_ahead_def by (rule look_ahead_ge)
      have lt: "i_ahead < length x"
        unfolding i_ahead_def using bound by (intro look_ahead_less) simp
      show ?thesis
      proof (cases "x ! i_ahead < x ! i")
        case False
        with bound rise "1.prems" have "p \<in> set (local_maxima_from x (i + 1))"
          by (subst (asm) local_maxima_from.simps) (simp add: i_ahead_def Let_def)
        with "1.IH"(2) [OF bound rise i_ahead_def] False show ?thesis by fastforce
      next
        case True
        with bound rise "1.prems"
        have "p = (i + (i_ahead - 1)) div 2 \<or> p \<in> set (local_maxima_from x (i_ahead + 1))"
          by (subst (asm) local_maxima_from.simps) (auto simp: i_ahead_def Let_def)
        then show ?thesis
        proof
          assume "p \<in> set (local_maxima_from x (i_ahead + 1))"
          with "1.IH"(1) [OF bound rise i_ahead_def True] ge show ?thesis by fastforce
        next
          assume mid: "p = (i + (i_ahead - 1)) div 2"
          with ge have range: "i \<le> p" "p < i_ahead" by auto
          have plateau: "x ! k = x ! i" if "i \<le> k" "k < i_ahead" for k
          proof (cases "k = i")
            case False
            with that have "i + 1 \<le> k" by simp
            with that show ?thesis
              unfolding i_ahead_def by (intro look_ahead_plateau) auto
          qed simp
          have at_p: "x ! p = x ! i"
            using plateau [of p] range by simp
          have before: "x ! (i - 1) < x ! p"
            using rise at_p by simp
          have flat: "x ! k = x ! p" if "i \<le> k" "k \<le> p" for k
            using plateau [of k] that range at_p by simp
          have "p < length x"
            using range lt by simp
          moreover have "\<exists>l\<le>p. x ! (l - 1) < x ! p \<and> (\<forall>k. l \<le> k \<and> k \<le> p \<longrightarrow> x ! k = x ! p)"
            using range(1) before flat by blast
          ultimately have "rises_into x p"
            unfolding rises_into_def by simp
          with range(1) show ?thesis by simp
        qed
      qed
    qed
  qed
qed

lemma local_maxima_from_sorted: "sorted_wrt (<) (local_maxima_from x i)"
proof (induction x i rule: local_maxima_from.induct)
  case (1 x i)
  show ?case
  proof (cases "i + 1 < length x")
    case False
    then show ?thesis
      by (subst local_maxima_from.simps) simp
  next
    case bound: True
    show ?thesis
    proof (cases "x ! (i - 1) < x ! i")
      case False
      with bound "1.IH"(3) show ?thesis
        by (subst local_maxima_from.simps) simp
    next
      case rise: True
      define i_ahead where "i_ahead = look_ahead x i (i + 1)"
      have ge: "i + 1 \<le> i_ahead"
        unfolding i_ahead_def by (rule look_ahead_ge)
      show ?thesis
      proof (cases "x ! i_ahead < x ! i")
        case False
        with bound rise "1.IH"(2) [OF bound rise i_ahead_def] show ?thesis
          by (subst local_maxima_from.simps) (simp add: i_ahead_def Let_def)
      next
        case True
        have "(i + (i_ahead - 1)) div 2 < q" if "q \<in> set (local_maxima_from x (i_ahead + 1))" for q
          using local_maxima_from_props [OF that] ge by auto
        with bound rise True "1.IH"(1) [OF bound rise i_ahead_def True] show ?thesis
          by (subst local_maxima_from.simps) (auto simp: i_ahead_def Let_def)
      qed
    qed
  qed
qed

lemma rises_into_exclusive:
  assumes "rises_into x p" and "rises_into (map uminus x) p"
  shows False
proof -
  from assms(1) obtain l where l: "l \<le> p" "p < length x" "x ! (l - 1) < x ! p"
    "\<And>k. l \<le> k \<Longrightarrow> k \<le> p \<Longrightarrow> x ! k = x ! p"
    unfolding rises_into_def by blast
  from assms(2) obtain l' where l': "l' \<le> p"
    "map uminus x ! (l' - 1) < map uminus x ! p"
    "\<And>k. l' \<le> k \<Longrightarrow> k \<le> p \<Longrightarrow> map uminus x ! k = map uminus x ! p"
    unfolding rises_into_def by blast
  from l'(1,2) l(2) have drop: "x ! p < x ! (l' - 1)"
    by simp
  have eq': "x ! k = x ! p" if "l' \<le> k" "k \<le> p" for k
    using l'(3) [OF that] that l(2) by simp
  consider "l < l'" | "l' < l" | "l = l'" by linarith
  then show False
  proof cases
    case 1
    then have "l \<le> l' - 1" "l' - 1 \<le> p" using l'(1) by auto
    from l(4) [OF this] drop show False by simp
  next
    case 2
    then have "l' \<le> l - 1" "l - 1 \<le> p" using l(1) by auto
    from eq' [OF this] l(3) show False by simp
  next
    case 3
    with l(3) drop show False by simp
  qed
qed

lemma local_maxima_exclusive:
  "p \<in> set (local_maxima_1d x) \<Longrightarrow> p \<notin> set (local_maxima_1d (map uminus x))"
  unfolding local_maxima_1d_def
  using local_maxima_from_props rises_into_exclusive by blast

lemma set_select: "set (select xs keep) \<subseteq> set xs"
  unfolding select_def by (auto dest: set_zip_leftD)

lemma sorted_wrt_select: "sorted_wrt P xs \<Longrightarrow> sorted_wrt P (select xs keep)"
proof (induction xs arbitrary: keep)
  case Nil
  then show ?case by (simp add: select_def)
next
  case (Cons a xs)
  show ?case
  proof (cases keep)
    case Nil
    then show ?thesis by (simp add: select_def)
  next
    case (Cons k ks)
    have "set (select xs ks) \<subseteq> set xs" by (rule set_select)
    with Cons.prems Cons.IH [of ks] Cons show ?thesis
      by (auto simp: select_def dest: set_zip_leftD)
  qed
qed

lemma find_peaks_Inr:
  assumes "find_peaks lib x height distance prominence = Inr peaks"
  shows "sorted_wrt (<) peaks" and "set peaks \<subseteq> set (local_maxima_1d x)"
proof -
  from assms obtain k1 k2 k3 where
    peaks: "peaks = select (select (select (local_maxima_1d x) k1) k2) k3"
    by (auto simp: find_peaks_def Let_def split: if_splits)
  show "sorted_wrt (<) peaks"
    unfolding peaks local_maxima_1d_def
    by (intro sorted_wrt_select local_maxima_from_sorted)
  show "set peaks \<subseteq> set (local_maxima_1d x)"
    unfolding peaks by (meson set_select subset_trans)
qed

lemma find_peaks_Inl:
  "find_peaks lib x height distance prominence = Inl e \<longleftrightarrow> distance < 1 \<and> e = ValueError"
  by (auto simp: find_peaks_def Let_def)

section \<open>The edge set of \<^verbatim>\<open>find_edges\<close>\<close>

lemma map_fst_insort_key: "map fst (insort_key fst a s) = insort (fst a) (map fst s)"
  by (induction s) auto

lemma map_fst_sort_index: "map fst (sort_index s) = sort (map fst s)"
  unfolding sort_index_def by (induction s) (auto simp: map_fst_insort_key)

lemma set_sort_index: "set (sort_index s) = set s"
  unfolding sort_index_def by simp

lemma length_sort_index: "length (sort_index s) = length s"
  unfolding sort_index_def by simp

lemma sort_index_strict:
  "distinct (map fst s) \<Longrightarrow> sorted_wrt (<) (map fst (sort_index s))"
  by (simp add: map_fst_sort_index strict_sorted_iff)

lemma find_edges_Inr:
  assumes "find_edges lib slope nh ph fd rd np pp = Inr edges"
  obtains falling rising where
    "find_peaks lib (map uminus slope) nh fd np = Inr falling"
    "find_peaks lib slope ph rd pp = Inr rising"
    "edges = sort_index (zip (falling @ rising)
               (replicate (length falling) False @ replicate (length rising) True))"
  using assms by (auto simp: find_edges_def split: sum.splits)

lemma find_edges_offsets:
  assumes "find_edges lib slope nh ph fd rd np pp = Inr edges"
  shows "sorted_wrt (<) (map fst edges)"
proof -
  from assms obtain falling rising where
    f: "find_peaks lib (map uminus slope) nh fd np = Inr falling" and
    r: "find_peaks lib slope ph rd pp = Inr rising" and
    e: "edges = sort_index (zip (falling @ rising)
               (replicate (length falling) False @ replicate (length rising) True))"
    by (rule find_edges_Inr)
  have df: "distinct falling" and dr: "distinct rising"
    using find_peaks_Inr(1) [OF f] find_peaks_Inr(1) [OF r]
    by (simp_all add: strict_sorted_iff)
  have "set falling \<inter> set rising = {}"
    using find_peaks_Inr(2) [OF f] find_peaks_Inr(2) [OF r] local_maxima_exclusive [of _ slope]
    by blast
  with df dr have "distinct (falling @ rising)"
    by simp
  moreover have "map fst (zip (falling @ rising)
      (replicate (length falling) False @ replicate (length rising) True)) = falling @ rising"
    by simp
  ultimately show ?thesis
    unfolding e by (intro sort_index_strict) simp
qed

lemma find_edges_Inl:
  "find_edges lib slope nh ph fd rd np pp = Inl e \<longleftrightarrow> (fd < 1 \<or> rd < 1) \<and> e = ValueError"
  by (auto simp: find_edges_def find_peaks_Inl split: sum.splits)
   (metis find_peaks_Inl old.sum.exhaust sum.distinct(1))+

text \<open>
  Claim C2. Whatever the slope signal and the height, prominence and distance
  parameters, \<^verbatim>\<open>find_edges\<close> either raises \<^verbatim>\<open>ValueError\<close> (exactly when a distance is
  below 1, which \<^verbatim>\<open>find_peaks\<close> refuses) or returns an edge set whose offsets are
  strictly increasing: no offset occurs twice, and none is both a falling and a
  rising edge.
\<close>

theorem find_edges_strictly_increasing:
  "case find_edges lib slope minimum_negative_height minimum_positive_height
          minimum_falling_edge_distance minimum_rising_edge_distance
          minimum_negative_prominence minimum_positive_prominence of
     Inl e \<Rightarrow>
       e = ValueError \<and> (minimum_falling_edge_distance < 1 \<or> minimum_rising_edge_distance < 1)
   | Inr edges \<Rightarrow>
       1 \<le> minimum_falling_edge_distance \<and> 1 \<le> minimum_rising_edge_distance \<and>
       sorted_wrt (<) (map fst edges) \<and> distinct (map fst edges) \<and>
       (\<forall>offset. \<not> ((offset, False) \<in> set edges \<and> (offset, True) \<in> set edges))"
proof (cases "find_edges lib slope minimum_negative_height minimum_positive_height
          minimum_falling_edge_distance minimum_rising_edge_distance
          minimum_negative_prominence minimum_positive_prominence")
  case (Inl e)
  then have "(minimum_falling_edge_distance < 1 \<or> minimum_rising_edge_distance < 1) \<and>
      e = ValueError"
    by (simp add: find_edges_Inl)
  with Inl show ?thesis by simp
next
  case (Inr edges)
  have strict: "sorted_wrt (<) (map fst edges)"
    using Inr by (rule find_edges_offsets)
  then have d: "distinct (map fst edges)"
    by (simp add: strict_sorted_iff)
  have "\<not> ((offset, False) \<in> set edges \<and> (offset, True) \<in> set edges)" for offset
    using eq_key_imp_eq_value [OF d, of offset False True] by auto
  moreover have "1 \<le> minimum_falling_edge_distance \<and> 1 \<le> minimum_rising_edge_distance"
    using Inr find_edges_Inl [of lib slope minimum_negative_height minimum_positive_height
          minimum_falling_edge_distance minimum_rising_edge_distance
          minimum_negative_prominence minimum_positive_prominence ValueError]
    by (auto simp: not_less)
  ultimately show ?thesis
    using Inr strict d by simp
qed

theorem find_edges_strictly_increasing_witness:
  "find_edges hold_library [0, 1, 0, -2, -2, 0, 3, 1] (1/2) (1/2) 1 1 (1/2) (1/2) =
     Inr [(1, True), (3, False), (6, True)] \<and>
   sorted_wrt (<) (map fst [(1::nat, True), (3, False), (6, True)])"
proof -
  have run: "find_edges hold_library [0, 1, 0, -2, -2, 0, 3, 1] (1/2) (1/2) 1 1 (1/2) (1/2) =
     Inr [(1, True), (3, False), (6, True)]"
    by code_simp
  from find_edges_strictly_increasing [where lib = hold_library
      and slope = "[0, 1, 0, -2, -2, 0, 3, 1]"
      and minimum_negative_height = "1/2" and minimum_positive_height = "1/2"
      and minimum_falling_edge_distance = 1 and minimum_rising_edge_distance = 1
      and minimum_negative_prominence = "1/2" and minimum_positive_prominence = "1/2"]
  show ?thesis unfolding run by simp
qed

section \<open>The boundaries of the test signal\<close>

lemma np_max_Inr: "xs \<noteq> [] \<Longrightarrow> np_max xs = Inr (Max (set xs))"
proof (cases xs)
  case (Cons a rest)
  have "fold max rest a = Max (set (a # rest))"
    by (rule Max.set_eq_fold [symmetric])
  with Cons show ?thesis
    by (simp add: np_max_def)
qed simp

lemma np_min_Inr: "xs \<noteq> [] \<Longrightarrow> np_min xs = Inr (Min (set xs))"
proof (cases xs)
  case (Cons a rest)
  have "fold min rest a = Min (set (a # rest))"
    by (rule Min.set_eq_fold [symmetric])
  with Cons show ?thesis
    by (simp add: np_min_def)
qed simp

lemma boundary_candidates_Inr:
  "cc \<noteq> [] \<Longrightarrow>
   boundary_candidates r cc = Inr (map (\<lambda>v. Max (set (map abs cc)) * r \<le> v) (map abs cc))"
  by (simp add: boundary_candidates_def np_max_Inr)

lemma set_nonzero: "set (nonzero flags) = {i. i < length flags \<and> flags ! i}"
  by (auto simp: nonzero_def)

lemma sorted_nonzero: "sorted_wrt (<) (nonzero flags)"
  unfolding nonzero_def by (intro sorted_wrt_filter) simp

lemma hd_least: "sorted_wrt (<) xs \<Longrightarrow> (x::nat) \<in> set xs \<Longrightarrow> hd xs \<le> x"
  by (cases xs) auto

lemma last_greatest: "sorted_wrt (<) xs \<Longrightarrow> (x::nat) \<in> set xs \<Longrightarrow> x \<le> last xs"
  by (induction xs) (auto simp: less_imp_le)

lemma slice_window: "slice xs a b = map (\<lambda>k. xs ! k) [a..<min b (length xs)]"
proof (rule nth_equalityI)
  show "length (slice xs a b) = length (map (\<lambda>k. xs ! k) [a..<min b (length xs)])"
    by (auto simp: slice_def)
next
  fix i assume "i < length (slice xs a b)"
  then have i: "i < length xs - a" "i < b - a"
    by (simp_all add: slice_def)
  then have "a + i < min b (length xs)"
    by arith
  then have "[a..<min b (length xs)] ! i = a + i"
    by (rule nth_upt)
  with i show "slice xs a b ! i = map (\<lambda>k. xs ! k) [a..<min b (length xs)] ! i"
    by (simp add: slice_def)
qed

lemma candidate_flags:
  assumes "cc \<noteq> []" and "i < length cc"
  shows "map (\<lambda>v. Max (set (map abs cc)) * r \<le> v) (map abs cc) ! i \<longleftrightarrow>
         spec_boundary_candidate r cc i"
  using assms by (simp add: spec_boundary_candidate_def mult.commute)

text \<open>
  Claim C3. For a cross-correlation that is not empty, the positions the program marks
  as boundary candidates are exactly the spec's candidates (magnitude at least
  threshold ratio times the global maximum of the magnitudes). With fewer than two of
  them the assertion of line 267 fails; otherwise the start is the earliest candidate,
  the end is the latest candidate plus the length of the reference signal, and the
  trimmed slope holds the samples of the half-open window from start to end (as far
  as the slope reaches).
\<close>

theorem boundary_locator:
  assumes "cross_correlation \<noteq> []"
  shows "\<exists>candidates.
           boundary_candidates (boundaries_score_threshold_ratio a) cross_correlation =
             Inr candidates \<and>
           length candidates = length cross_correlation \<and>
           (\<forall>i. i \<in> set (nonzero candidates) \<longleftrightarrow>
                spec_boundary_candidate (boundaries_score_threshold_ratio a) cross_correlation i) \<and>
           (case locate_boundaries a recording_slope reference_size cross_correlation of
              Inl e \<Rightarrow> e = AssertionError \<and> length (nonzero candidates) < 2
            | Inr (msg, start_index, end_index, trimmed) \<Rightarrow>
                2 \<le> length (nonzero candidates) \<and>
                start_index \<in> set (nonzero candidates) \<and>
                (\<forall>i \<in> set (nonzero candidates). start_index \<le> i) \<and>
                (\<exists>latest \<in> set (nonzero candidates).
                   (\<forall>i \<in> set (nonzero candidates). i \<le> latest) \<and>
                   end_index = latest + reference_size) \<and>
                trimmed = map (\<lambda>k. recording_slope ! k)
                            [start_index..<min end_index (length recording_slope)])"
proof -
  define r where "r = boundaries_score_threshold_ratio a"
  define candidates where
    "candidates = map (\<lambda>v. Max (set (map abs cross_correlation)) * r \<le> v)
                    (map abs cross_correlation)"
  have bc: "boundary_candidates r cross_correlation = Inr candidates"
    unfolding candidates_def using assms by (rule boundary_candidates_Inr)
  have len: "length candidates = length cross_correlation"
    by (simp add: candidates_def)
  have mem: "i \<in> set (nonzero candidates) \<longleftrightarrow> spec_boundary_candidate r cross_correlation i" for i
  proof (cases "i < length cross_correlation")
    case True
    with candidate_flags [OF assms True, of r] len show ?thesis
      by (simp add: set_nonzero candidates_def)
  next
    case False
    with len show ?thesis
      by (simp add: set_nonzero spec_boundary_candidate_def)
  qed
  have loc: "case locate_boundaries a recording_slope reference_size cross_correlation of
              Inl e \<Rightarrow> e = AssertionError \<and> length (nonzero candidates) < 2
            | Inr (msg, start_index, end_index, trimmed) \<Rightarrow>
                2 \<le> length (nonzero candidates) \<and>
                start_index \<in> set (nonzero candidates) \<and>
                (\<forall>i \<in> set (nonzero candidates). start_index \<le> i) \<and>
                (\<exists>latest \<in> set (nonzero candidates).
                   (\<forall>i \<in> set (nonzero candidates). i \<le> latest) \<and>
                   end_index = latest + reference_size) \<and>
                trimmed = map (\<lambda>k. recording_slope ! k)
                            [start_index..<min end_index (length recording_slope)]"
  proof (cases "length (nonzero candidates) > 1")
    case False
    with bc show ?thesis
      by (simp add: locate_boundaries_def r_def)
  next
    case True
    then have ne: "nonzero candidates \<noteq> []" by auto
    have eq: "locate_boundaries a recording_slope reference_size cross_correlation =
        Inr (TestSignalBounds (hd (nonzero candidates)) (last (nonzero candidates) + reference_size),
             hd (nonzero candidates), last (nonzero candidates) + reference_size,
             slice recording_slope (hd (nonzero candidates))
               (last (nonzero candidates) + reference_size))"
      using bc True by (simp add: locate_boundaries_def r_def Let_def)
    have "\<forall>i \<in> set (nonzero candidates). hd (nonzero candidates) \<le> i"
      using hd_least [OF sorted_nonzero] by blast
    moreover have "\<forall>i \<in> set (nonzero candidates). i \<le> last (nonzero candidates)"
      using last_greatest [OF sorted_nonzero] by blast
    moreover have "hd (nonzero candidates) \<in> set (nonzero candidates)"
      "last (nonzero candidates) \<in> set (nonzero candidates)"
      using ne by simp_all
    ultimately show ?thesis
      unfolding eq using True by (simp add: slice_window)
  qed
  from bc len mem loc show ?thesis
    unfolding r_def by blast
qed

theorem boundary_locator_witness:
  "boundary_candidates (boundaries_score_threshold_ratio test_args) [1, -4, 2, 3] =
     Inr [False, True, True, True] \<and>
   locate_boundaries test_args [10, 11, 12, 13, 14, 15, 16] 4 [1, -4, 2, 3] =
     Inr (TestSignalBounds 1 7, 1, 7, [11, 12, 13, 14, 15, 16]) \<and>
   spec_boundary_candidate (boundaries_score_threshold_ratio test_args) [1, -4, 2, 3] 1 \<and>
   \<not> spec_boundary_candidate (boundaries_score_threshold_ratio test_args) [1, -4, 2, 3] 0"
  (is ?run)
proof -
  have ne: "[1, -4, 2, 3 :: real] \<noteq> []"
    by simp
  have run: ?run
    by code_simp
  show ?thesis
    using boundary_locator [OF ne, where a = test_args
      and recording_slope = "[10, 11, 12, 13, 14, 15, 16]" and reference_size = 4] run
    by - assumption
qed

text \<open>
  Claim C10. For a cross-correlation that is not empty and a threshold ratio of at most
  1, every position where the magnitude attains the global maximum is a boundary
  candidate, so there is at least one candidate; \<^verbatim>\<open>locate_boundaries\<close> then fails only
  with the assertion of line 267, and exactly when there is one candidate.
\<close>

theorem global_maximum_is_candidate:
  assumes "cross_correlation \<noteq> []" and "boundaries_score_threshold_ratio a \<le> 1"
  shows "\<exists>candidates.
           boundary_candidates (boundaries_score_threshold_ratio a) cross_correlation =
             Inr candidates \<and>
           (\<exists>p<length cross_correlation.
              \<bar>cross_correlation ! p\<bar> = Max (set (map abs cross_correlation))) \<and>
           (\<forall>p<length cross_correlation.
              \<bar>cross_correlation ! p\<bar> = Max (set (map abs cross_correlation)) \<longrightarrow>
              candidates ! p \<and> p \<in> set (nonzero candidates)) \<and>
           nonzero candidates \<noteq> [] \<and>
           (\<forall>e. locate_boundaries a recording_slope reference_size cross_correlation = Inl e
                \<longleftrightarrow> e = AssertionError \<and> length (nonzero candidates) = 1)"
proof -
  define r where "r = boundaries_score_threshold_ratio a"
  define m where "m = Max (set (map abs cross_correlation))"
  define candidates where "candidates = map (\<lambda>v. m * r \<le> v) (map abs cross_correlation)"
  have bc: "boundary_candidates r cross_correlation = Inr candidates"
    unfolding candidates_def m_def using assms(1) by (rule boundary_candidates_Inr)
  have "m \<in> set (map abs cross_correlation)"
    unfolding m_def using assms(1) by (intro Max_in) simp_all
  then obtain p where p: "p < length cross_correlation" "\<bar>cross_correlation ! p\<bar> = m"
    by (auto simp: in_set_conv_nth)
  then have "0 \<le> m" by auto
  with assms(2) have "m * r \<le> m * 1"
    unfolding r_def by (intro mult_left_mono)
  then have le: "m * r \<le> m"
    by simp
  have cand: "candidates ! q \<and> q \<in> set (nonzero candidates)"
    if "q < length cross_correlation" "\<bar>cross_correlation ! q\<bar> = m" for q
    using that le by (simp add: candidates_def set_nonzero)
  from cand [OF p] have ne: "nonzero candidates \<noteq> []"
    by auto
  have loc: "locate_boundaries a recording_slope reference_size cross_correlation = Inl e
                \<longleftrightarrow> e = AssertionError \<and> length (nonzero candidates) = 1" for e
  proof (cases "length (nonzero candidates) > 1")
    case True
    with bc show ?thesis
      by (simp add: locate_boundaries_def r_def Let_def)
  next
    case False
    with ne have "length (nonzero candidates) = 1"
      by (cases "nonzero candidates") auto
    with bc show ?thesis
      by (auto simp: locate_boundaries_def r_def)
  qed
  from bc p cand ne loc show ?thesis
    unfolding r_def m_def by blast
qed

theorem global_maximum_is_candidate_witness:
  "boundary_candidates
     (boundaries_score_threshold_ratio (test_args\<lparr>boundaries_score_threshold_ratio := 1\<rparr>))
     [0, 3, 0, -2, 1] = Inr [False, True, False, False, False] \<and>
   nonzero [False, True, False, False, False] = [1] \<and>
   locate_boundaries (test_args\<lparr>boundaries_score_threshold_ratio := 1\<rparr>)
     [0, 3, 0, -2, 1, 4, 5, 5, 5, 5] 5 [0, 3, 0, -2, 1] = Inl AssertionError"
  (is ?run)
proof -
  have run: ?run
    by code_simp
  have "[0, 3, 0, -2, 1 :: real] \<noteq> []"
    "boundaries_score_threshold_ratio (test_args\<lparr>boundaries_score_threshold_ratio := 1\<rparr>) \<le> 1"
    by simp_all
  from global_maximum_is_candidate [OF this, where reference_size = 5
      and recording_slope = "[0, 3, 0, -2, 1, 4, 5, 5, 5, 5]"] run
  show ?thesis
    by - assumption
qed

section \<open>Rounding to binary64\<close>

lemma pow2_powr: "pow2 k = 2 powr of_int k"
proof (cases "0 \<le> k")
  case True
  then have "(2::real) powr of_int k = 2 powr real (nat k)"
    by simp
  also have "\<dots> = 2 ^ nat k"
    by (rule powr_realpow) simp
  finally show ?thesis
    using True by (simp add: pow2_def)
next
  case False
  then have "(2::real) powr of_int k = 2 powr - real (nat (- k))"
    by simp
  also have "\<dots> = 1 / 2 powr real (nat (- k))"
    by (simp add: powr_minus divide_inverse)
  also have "(2::real) powr real (nat (- k)) = 2 ^ nat (- k)"
    by (rule powr_realpow) simp
  finally show ?thesis
    using False by (simp add: pow2_def)
qed

lemma floor_log2:
  assumes "2 powr of_int e \<le> x" and "x < 2 powr (of_int e + 1)"
  shows "\<lfloor>log 2 x\<rfloor> = e"
proof -
  have pos: "0 < x"
    using assms(1) by (rule less_le_trans [rotated]) simp
  have "of_int e \<le> log 2 x"
    using assms(1) pos by (simp add: le_log_iff)
  moreover have "log 2 x < of_int e + 1"
    using assms(2) pos by (simp add: log_less_iff)
  ultimately show ?thesis
    by (simp add: floor_eq_iff)
qed

lemma powr_nat: "0 \<le> k \<Longrightarrow> (2::real) powr of_int k = 2 ^ nat k"
  using pow2_powr [of k] by (simp add: pow2_def)

lemma powr_neg: "k < 0 \<Longrightarrow> (2::real) powr of_int k = 1 / 2 ^ nat (- k)"
  using pow2_powr [of k] by (simp add: pow2_def)

lemma pow_le_of_int: "(2::int) ^ k \<le> n \<Longrightarrow> (2::real) ^ k \<le> of_int n"
  by (metis of_int_le_iff of_int_numeral of_int_power)

lemma of_int_le_pow: "n \<le> (2::int) ^ k \<Longrightarrow> of_int n \<le> (2::real) ^ k"
  by (metis of_int_le_iff of_int_numeral of_int_power)

lemma exponent_log:
  assumes "0 < x"
  shows "exponent x = \<lfloor>log 2 x\<rfloor>"
proof (cases "1 \<le> x")
  case True
  define n where "n = \<lfloor>x\<rfloor>"
  have n: "0 < n"
    unfolding n_def using True by simp
  from bitlen_bounds [OF n] have lo: "2 ^ nat (bitlen n - 1) \<le> n" and hi: "n < 2 ^ nat (bitlen n)"
    by simp_all
  have b: "1 \<le> bitlen n"
    using n by (simp add: bitlen_alt_def)
  have "(2::real) ^ nat (bitlen n - 1) \<le> real_of_int n"
    using lo by (rule pow_le_of_int)
  moreover have "real_of_int n \<le> x"
    unfolding n_def by simp
  ultimately have "2 ^ nat (bitlen n - 1) \<le> x"
    by linarith
  moreover have "(2::real) powr of_int (bitlen n - 1) = 2 ^ nat (bitlen n - 1)"
    using b by (intro powr_nat) simp
  ultimately have low: "2 powr of_int (bitlen n - 1) \<le> x"
    by simp
  from hi have "n + 1 \<le> 2 ^ nat (bitlen n)"
    by simp
  then have "real_of_int (n + 1) \<le> 2 ^ nat (bitlen n)"
    by (rule of_int_le_pow)
  moreover have "x < real_of_int (n + 1)"
    unfolding n_def by linarith
  ultimately have "x < 2 ^ nat (bitlen n)"
    by linarith
  moreover have "(2::real) powr (of_int (bitlen n - 1) + 1) = 2 ^ nat (bitlen n)"
    using b powr_nat [of "bitlen n"] by simp
  ultimately have "x < 2 powr (of_int (bitlen n - 1) + 1)"
    by simp
  with low have "\<lfloor>log 2 x\<rfloor> = bitlen n - 1"
    by (rule floor_log2)
  with True show ?thesis
    by (simp add: exponent_def n_def)
next
  case False
  define y where "y = 1 / x"
  define m where "m = \<lceil>y\<rceil> - 1"
  have y: "1 < y"
    unfolding y_def using False assms by simp
  then have "2 \<le> \<lceil>y\<rceil>"
    by (simp add: le_ceiling_iff)
  then have m: "0 < m"
    by (simp add: m_def)
  have my: "real_of_int m < y" and ym: "y \<le> real_of_int m + 1"
    unfolding m_def by linarith+
  from bitlen_bounds [OF m] have lo: "2 ^ nat (bitlen m - 1) \<le> m" and hi: "m < 2 ^ nat (bitlen m)"
    by simp_all
  have b: "1 \<le> bitlen m"
    using m by (simp add: bitlen_alt_def)
  from hi have "m + 1 \<le> 2 ^ nat (bitlen m)"
    by simp
  then have "real_of_int (m + 1) \<le> 2 ^ nat (bitlen m)"
    by (rule of_int_le_pow)
  with ym have "y \<le> 2 ^ nat (bitlen m)"
    by simp
  then have "1 / 2 ^ nat (bitlen m) \<le> 1 / y"
    using y by (intro divide_left_mono) simp_all
  moreover have "(2::real) powr of_int (- bitlen m) = 1 / 2 ^ nat (bitlen m)"
    using b powr_neg [of "- bitlen m"] by simp
  ultimately have low: "2 powr of_int (- bitlen m) \<le> x"
    by (simp add: y_def)
  have "(2::real) ^ nat (bitlen m - 1) \<le> real_of_int m"
    using lo by (rule pow_le_of_int)
  with my have "2 ^ nat (bitlen m - 1) < y"
    by linarith
  then have "1 / y < 1 / 2 ^ nat (bitlen m - 1)"
    using y by (intro divide_strict_left_mono) simp_all
  moreover have "(2::real) powr (of_int (- bitlen m) + 1) = 1 / 2 ^ nat (bitlen m - 1)"
  proof (cases "bitlen m = 1")
    case True
    then show ?thesis by simp
  next
    case False
    with b have "1 - bitlen m < 0" by simp
    from powr_neg [OF this] show ?thesis
      by (simp add: algebra_simps)
  qed
  ultimately have "x < 2 powr (of_int (- bitlen m) + 1)"
    by (simp add: y_def)
  with low have "\<lfloor>log 2 x\<rfloor> = - bitlen m"
    by (rule floor_log2)
  with False show ?thesis
    by (simp add: exponent_def m_def y_def)
qed

lemma binary64_log:
  "binary64 x =
     (if x = 0 then 0
      else
        let e = \<lfloor>log 2 \<bar>x\<bar>\<rfloor>
        in sgn x * (of_int (round_half_even (\<bar>x\<bar> * 2 powr (52 - of_int e))) *
                    2 powr (of_int e - 52)))"
proof (cases "x = 0")
  case True
  then show ?thesis by (simp add: binary64_def)
next
  case False
  then have "exponent \<bar>x\<bar> = \<lfloor>log 2 \<bar>x\<bar>\<rfloor>"
    by (intro exponent_log) simp
  with False show ?thesis
    by (simp add: binary64_def Let_def pow2_powr)
qed

lemma round_half_even_error: "\<bar>of_int (round_half_even y) - y\<bar> \<le> 1 / 2"
  unfolding round_half_even_def Let_def by (auto simp: abs_le_iff)

lemma binary64_error:
  assumes "x \<noteq> 0"
  shows "\<bar>binary64 x - x\<bar> \<le> \<bar>x\<bar> / 2 ^ 53"
proof -
  define e where "e = \<lfloor>log 2 \<bar>x\<bar>\<rfloor>"
  define s :: real where "s = 2 powr (of_int e - 52)"
  define n where "n = round_half_even (\<bar>x\<bar> * 2 powr (52 - of_int e))"
  have s_pos: "0 < s"
    by (simp add: s_def)
  have inv: "2 powr (52 - of_int e) = 1 / s"
    unfolding s_def by (simp add: powr_diff field_simps)
  have fl: "binary64 x = sgn x * (of_int n * s)"
    using assms by (simp add: binary64_log e_def s_def n_def Let_def)
  have "\<bar>of_int n - \<bar>x\<bar> / s\<bar> \<le> 1 / 2"
    using round_half_even_error [of "\<bar>x\<bar> * 2 powr (52 - of_int e)"]
    by (simp add: n_def inv)
  then have "\<bar>of_int n - \<bar>x\<bar> / s\<bar> * s \<le> 1 / 2 * s"
    using s_pos by (intro mult_right_mono) simp_all
  moreover have "(of_int n - \<bar>x\<bar> / s) * s = of_int n * s - \<bar>x\<bar>"
    using s_pos by (simp add: left_diff_distrib)
  then have "\<bar>of_int n * s - \<bar>x\<bar>\<bar> = \<bar>of_int n - \<bar>x\<bar> / s\<bar> * \<bar>s\<bar>"
    by (simp only: abs_mult [symmetric])
  ultimately have close: "\<bar>of_int n * s - \<bar>x\<bar>\<bar> \<le> s / 2"
    using s_pos by simp
  have "binary64 x - x = sgn x * (of_int n * s - \<bar>x\<bar>)"
    unfolding fl by (simp add: right_diff_distrib sgn_mult_abs)
  then have "\<bar>binary64 x - x\<bar> = \<bar>of_int n * s - \<bar>x\<bar>\<bar>"
    using assms by (simp add: abs_mult abs_sgn_eq)
  with close have err: "\<bar>binary64 x - x\<bar> \<le> s / 2"
    by simp
  have "of_int e \<le> log 2 \<bar>x\<bar>"
    unfolding e_def by simp
  then have "2 powr of_int e \<le> \<bar>x\<bar>"
    using assms by (simp add: le_log_iff)
  moreover have "s / 2 = 2 powr of_int e / 2 ^ 53"
    unfolding s_def by (simp add: powr_diff)
  ultimately have "s / 2 \<le> \<bar>x\<bar> / 2 ^ 53"
    by (simp add: divide_right_mono)
  with err show ?thesis
    by simp
qed

lemma binary64_bounds:
  assumes "0 < x"
  shows "x * (1 - 1 / 2 ^ 53) \<le> binary64 x" and "binary64 x \<le> x * (1 + 1 / 2 ^ 53)"
proof -
  have "\<bar>binary64 x - x\<bar> \<le> x / 2 ^ 53"
    using binary64_error [of x] assms by simp
  then have "binary64 x - x \<le> x / 2 ^ 53" and "x - binary64 x \<le> x / 2 ^ 53"
    by linarith+
  then show "x * (1 - 1 / 2 ^ 53) \<le> binary64 x" and "binary64 x \<le> x * (1 + 1 / 2 ^ 53)"
    by (simp_all add: algebra_simps)
qed






lemma binary64_pos: "0 < x \<Longrightarrow> 0 < binary64 x"
proof -
  assume x: "0 < x"
  then have "0 < x * (1 - 1 / 2 ^ 53)"
    by (intro mult_pos_pos) simp_all
  with binary64_bounds(1) [OF x] show ?thesis
    by linarith
qed



section \<open>The downsampling ratio\<close>






section \<open>The upsampling ratio\<close>


lemma upsample_ratio_ge_1:
  assumes "0 < timestamp_resolution_seconds a" and "0 < recording_sample_rate"
  shows "1 \<le> upsample_ratio a recording_sample_rate"
proof -
  have "0 < binary64 (1 / timestamp_resolution_seconds a)"
    using assms(1) by (intro binary64_pos) simp
  then have "0 < binary64 (1 / timestamp_resolution_seconds a) / recording_sample_rate"
    using assms(2) by simp
  then have "0 < binary64 (binary64 (1 / timestamp_resolution_seconds a) / recording_sample_rate)"
    by (rule binary64_pos)
  then have "0 < \<lceil>binary64 (binary64 (1 / timestamp_resolution_seconds a) /
      recording_sample_rate)\<rceil>"
    by simp
  then have "1 \<le> \<lceil>binary64 (binary64 (1 / timestamp_resolution_seconds a) /
      recording_sample_rate)\<rceil>"
    by simp
  then show ?thesis
    unfolding upsample_ratio_def by simp
qed




section \<open>Properties of the polarity resolution\<close>

lemma invert_invert: "invert (invert edges) = edges"
  by (induction edges) (auto simp: invert_def)

lemma map_fst_invert: "map fst (invert edges) = map fst edges"
  by (induction edges) (auto simp: invert_def)

lemma map_snd_invert: "map snd (invert edges) = map Not (map snd edges)"
  by (induction edges) (auto simp: invert_def)

lemma invert_eq_Nil: "invert edges = [] \<longleftrightarrow> edges = []"
  by (simp add: invert_def)

lemma hd_invert: "edges \<noteq> [] \<Longrightarrow> snd (hd (invert edges)) = (\<not> snd (hd edges))"
  by (cases edges) (auto simp: invert_def)

lemma last_invert: "edges \<noteq> [] \<Longrightarrow> snd (last (invert edges)) = (\<not> snd (last edges))"
  by (induction edges) (auto simp: invert_def)

text \<open>
  Claim C1, as stated, fails: with a falling first edge the stored booleans are
  inverted, and with a rising first edge they are kept.
\<close>

theorem polarity_flip_rule_counterexample:
  "resolve_polarity [(3::nat, False), (10, True)] =
     Inr (Deduced False True White Black, [(3, True), (10, False)]) \<and>
   map snd [(3::nat, True), (10, False)] \<noteq> map snd [(3::nat, False), (10, True)] \<and>
   resolve_polarity [(3::nat, True), (10, False)] =
     Inr (Deduced True False Black White, [(3, True), (10, False)])"
  by (simp add: resolve_polarity_def invert_def)

text \<open>
  Claim C1, amended. When the first and last edges differ, the resolver inverts every
  boolean if the first edge is falling and keeps them if it is rising; the message of
  line 340 names falling as the transition to white in the first case and rising in
  the second, so a stored \<open>True\<close> afterwards always is a transition to white. The offsets
  are unchanged.
\<close>

theorem polarity_flip_rule:
  assumes "edges \<noteq> []" and "snd (hd edges) \<noteq> snd (last edges)"
  shows "\<exists>falling_to rising_to resolved.
           resolve_polarity edges =
             Inr (Deduced (snd (hd edges)) (snd (last edges)) falling_to rising_to, resolved) \<and>
           falling_to = (if snd (hd edges) then Black else White) \<and>
           rising_to = (if snd (hd edges) then White else Black) \<and>
           resolved = (if snd (hd edges) then edges else invert edges) \<and>
           map fst resolved = map fst edges \<and>
           map snd resolved =
             map (\<lambda>rising. (if rising then rising_to else falling_to) = White) (map snd edges)"
  using assms
  by (auto simp: resolve_polarity_def Let_def map_fst_invert map_snd_invert)

theorem polarity_flip_rule_witness:
  "resolve_polarity [(2::nat, False), (7, True), (9, False), (12, True)] =
     Inr (Deduced False True White Black, [(2, True), (7, False), (9, True), (12, False)])"
  (is ?run)
proof -
  have run: ?run
    by (simp add: resolve_polarity_def invert_def)
  have "[(2::nat, False), (7, True), (9, False), (12, True)] \<noteq> []"
    "snd (hd [(2::nat, False), (7, True), (9, False), (12, True)]) \<noteq>
     snd (last [(2::nat, False), (7, True), (9, False), (12, True)])"
    by simp_all
  from polarity_flip_rule [OF this] run show ?thesis
    by - assumption
qed

text \<open>
  Claim C9. Resolving an edge set that is not empty succeeds, and resolving the result
  again returns it unchanged.
\<close>

theorem resolve_polarity_idempotent:
  assumes "edges \<noteq> []"
  shows "\<exists>msg resolved msg'.
           resolve_polarity edges = Inr (msg, resolved) \<and>
           resolve_polarity resolved = Inr (msg', resolved)"
  using assms
  by (auto simp: resolve_polarity_def Let_def invert_eq_Nil hd_invert last_invert)

theorem resolve_polarity_idempotent_witness:
  "resolve_polarity [(2::nat, False), (7, True)] =
     Inr (Deduced False True White Black, [(2, True), (7, False)]) \<and>
   resolve_polarity [(2::nat, True), (7, False)] =
     Inr (Deduced True False Black White, [(2, True), (7, False)])"
  (is ?run)
proof -
  have run: ?run
    by (simp add: resolve_polarity_def invert_def)
  have "[(2::nat, False), (7, True)] \<noteq> []"
    by simp
  from resolve_polarity_idempotent [OF this] run show ?thesis
    by - assumption
qed

section \<open>The run\<close>

lemma resolve_and_write_Inr:
  assumes "edges \<noteq> []"
  shows "\<exists>msg resolved.
           resolve_polarity edges = Inr (msg, resolved) \<and>
           map fst resolved = map fst edges \<and>
           resolve_and_write edges start rate = Inr (msg, to_csv (timestamps resolved start rate))"
  using assms
  by (auto simp: resolve_and_write_def resolve_polarity_def Let_def map_fst_invert)

lemma analyze_recording_stages:
  assumes "locate_boundaries a recording_slope reference_size cross_correlation =
             Inr (bounds, start_index, end_index, trimmed)"
    and "upsample lib a recording_sample_rate start_index end_index trimmed =
             Inr (upsampling, ratio, rate', start', end', upsampled)"
    and "detect_edges lib a rate' upsampled = (printed, Inr edges)"
  shows "analyze_recording lib a recording_sample_rate recording_slope reference_size
           cross_correlation =
         (if edges = [] then ([bounds, upsampling] @ printed, Inl AssertionError)
          else case resolve_and_write edges start' rate' of
                 Inl e \<Rightarrow> ([bounds, upsampling] @ printed, Inl e)
               | Inr (msg, written) \<Rightarrow> ([bounds, upsampling] @ printed @ [msg], Inr written))"
  using assms by (simp add: analyze_recording_def)

lemma locate_boundaries_few:
  assumes "boundary_candidates (boundaries_score_threshold_ratio a) cross_correlation =
             Inr candidates"
    and "length (nonzero candidates) < 2"
  shows "locate_boundaries a recording_slope reference_size cross_correlation =
           Inl AssertionError"
  using assms by (simp add: locate_boundaries_def)

lemma upsample_rate:
  assumes "upsample lib a rate s e slope = Inr (msg, U, rate', s', e', up)"
  shows "timestamp_resolution_seconds a \<noteq> 0"
    and "U = upsample_ratio a rate"
    and "rate' = rate * U" and "s' = real s * U" and "e' = real e * U"
  using assms by (auto simp: upsample_def Let_def split: if_splits sum.splits)

lemma detect_edges_offsets:
  assumes "detect_edges lib a rate slope = (printed, Inr edges)"
  shows "sorted_wrt (<) (map fst edges)"
proof -
  from assms obtain nh ph fd rd np pp where
    "find_edges lib slope nh ph fd rd np pp = Inr edges"
    by (auto simp: detect_edges_def Let_def split: sum.splits)
  then show ?thesis
    by (rule find_edges_offsets)
qed

lemma timestamps_strict:
  assumes "sorted_wrt (<) (map fst edges)" and "0 < rate"
  shows "sorted_wrt (<) (map fst (timestamps edges start rate))"
proof -
  have "sorted_wrt (\<lambda>x y. fst x < fst y) edges"
    using assms(1) by (simp add: sorted_wrt_map)
  then have "sorted_wrt (\<lambda>x y. (real (fst x) + start) / rate < (real (fst y) + start) / rate)
      edges"
    by (rule sorted_wrt_mono_rel [rotated]) (simp add: divide_strict_right_mono assms(2))
  then show ?thesis
    by (simp add: timestamps_def sorted_wrt_map split_def)
qed

text \<open>
  Claim C6. The assertions of lines 267 and 325 are enabled (the script is run by
  \<^verbatim>\<open>python3\<close> without \<^verbatim>\<open>-O\<close>). With fewer than two boundary candidates the run ends
  with \<^verbatim>\<open>AssertionError\<close>: exit status 1, nothing on \<^verbatim>\<open>sys.stdout\<close>. When the stages up
  to \<^verbatim>\<open>find_edges\<close> return, an empty edge set ends the run the same way, and an edge
  set that is not empty takes it to the output: exit status 0, the header and one row
  per edge.
\<close>

theorem fatal_detection_failures:
  "(\<forall>candidates.
      boundary_candidates (boundaries_score_threshold_ratio a) cross_correlation =
        Inr candidates \<and> length (nonzero candidates) < 2 \<longrightarrow>
      snd (analyze_recording lib a recording_sample_rate recording_slope reference_size
             cross_correlation) = Inl AssertionError \<and>
      exit_status (analyze_recording lib a recording_sample_rate recording_slope
             reference_size cross_correlation) = 1 \<and>
      stdout (analyze_recording lib a recording_sample_rate recording_slope
             reference_size cross_correlation) = []) \<and>
   (\<forall>bounds start_index end_index trimmed upsampling ratio rate' start' end' upsampled
       printed edges.
      locate_boundaries a recording_slope reference_size cross_correlation =
        Inr (bounds, start_index, end_index, trimmed) \<and>
      upsample lib a recording_sample_rate start_index end_index trimmed =
        Inr (upsampling, ratio, rate', start', end', upsampled) \<and>
      detect_edges lib a rate' upsampled = (printed, Inr edges) \<longrightarrow>
      (if edges = []
       then snd (analyze_recording lib a recording_sample_rate recording_slope
                   reference_size cross_correlation) = Inl AssertionError \<and>
            exit_status (analyze_recording lib a recording_sample_rate recording_slope
                   reference_size cross_correlation) = 1 \<and>
            stdout (analyze_recording lib a recording_sample_rate recording_slope
                   reference_size cross_correlation) = []
       else (\<exists>written.
               snd (analyze_recording lib a recording_sample_rate recording_slope
                      reference_size cross_correlation) = Inr written \<and>
               length written = 1 + length edges) \<and>
            exit_status (analyze_recording lib a recording_sample_rate recording_slope
                   reference_size cross_correlation) = 0))"
proof (intro conjI allI impI)
  fix candidates
  assume "boundary_candidates (boundaries_score_threshold_ratio a) cross_correlation =
        Inr candidates \<and> length (nonzero candidates) < 2"
  then have "locate_boundaries a recording_slope reference_size cross_correlation =
           Inl AssertionError"
    by (intro locate_boundaries_few) auto
  then have run: "analyze_recording lib a recording_sample_rate recording_slope reference_size
             cross_correlation = ([], Inl AssertionError)"
    by (simp add: analyze_recording_def)
  show "snd (analyze_recording lib a recording_sample_rate recording_slope reference_size
             cross_correlation) = Inl AssertionError"
    "exit_status (analyze_recording lib a recording_sample_rate recording_slope
             reference_size cross_correlation) = 1"
    "stdout (analyze_recording lib a recording_sample_rate recording_slope
             reference_size cross_correlation) = []"
    unfolding run by (simp_all add: exit_status_def stdout_def)
next
  fix bounds start_index end_index trimmed upsampling ratio rate' start' end' upsampled
       printed edges
  assume stages: "locate_boundaries a recording_slope reference_size cross_correlation =
        Inr (bounds, start_index, end_index, trimmed) \<and>
      upsample lib a recording_sample_rate start_index end_index trimmed =
        Inr (upsampling, ratio, rate', start', end', upsampled) \<and>
      detect_edges lib a rate' upsampled = (printed, Inr edges)"
  note run = analyze_recording_stages [OF stages [THEN conjunct1]
      stages [THEN conjunct2, THEN conjunct1] stages [THEN conjunct2, THEN conjunct2]]
  show "if edges = []
       then snd (analyze_recording lib a recording_sample_rate recording_slope
                   reference_size cross_correlation) = Inl AssertionError \<and>
            exit_status (analyze_recording lib a recording_sample_rate recording_slope
                   reference_size cross_correlation) = 1 \<and>
            stdout (analyze_recording lib a recording_sample_rate recording_slope
                   reference_size cross_correlation) = []
       else (\<exists>written.
               snd (analyze_recording lib a recording_sample_rate recording_slope
                      reference_size cross_correlation) = Inr written \<and>
               length written = 1 + length edges) \<and>
            exit_status (analyze_recording lib a recording_sample_rate recording_slope
                   reference_size cross_correlation) = 0"
  proof (cases "edges = []")
    case True
    then show ?thesis
      unfolding run by (simp add: exit_status_def stdout_def)
  next
    case False
    from resolve_and_write_Inr [OF False, of start' rate'] obtain msg resolved where
      r: "map fst resolved = map fst edges"
        "resolve_and_write edges start' rate' = Inr (msg, to_csv (timestamps resolved start' rate'))"
      by blast
    from r(1) have "length resolved = length edges"
      by (metis length_map)
    with False r(2) show ?thesis
      unfolding run by (simp add: exit_status_def to_csv_def timestamps_def)
  qed
qed

theorem fatal_detection_failures_witness:
  "(boundary_candidates (boundaries_score_threshold_ratio test_args) [0, 3, 0, 0, 0, 0, 0, 1] =
      Inr [False, True, False, False, False, False, False, False] \<and>
    length (nonzero [False, True, False, False, False, False, False, False]) < 2 \<and>
    analyze_recording hold_library test_args 50 [0, 0, 4, 0, 0, -4, 0, 0, 4, 0, 0, 0] 5
      [0, 3, 0, 0, 0, 0, 0, 1] = ([], Inl AssertionError)) \<and>
   (locate_boundaries test_args [0, 0, 0, 0, 0, 0, 0, 0, 0, 0, 0, 0] 5 [0, 3, 0, -3, 1, 0, 0, 0] =
      Inr (TestSignalBounds 1 8, 1, 8, [0, 0, 0, 0, 0, 0, 0]) \<and>
    upsample hold_library test_args 50 1 8 [0, 0, 0, 0, 0, 0, 0] =
      Inr (Upsampling 2 100, 2, 100, 2, 16, [0, 0, 0, 0, 0, 0, 0, 0, 0, 0, 0, 0, 0, 0]) \<and>
    detect_edges hold_library test_args 100 [0, 0, 0, 0, 0, 0, 0, 0, 0, 0, 0, 0, 0, 0] =
      ([SlopeRange 0 0, FindingEdges 0 0 2 2 0 0, Detected 0], Inr []) \<and>
    analyze_recording hold_library test_args 50 [0, 0, 0, 0, 0, 0, 0, 0, 0, 0, 0, 0] 5
      [0, 3, 0, -3, 1, 0, 0, 0] =
      ([TestSignalBounds 1 8, Upsampling 2 100, SlopeRange 0 0, FindingEdges 0 0 2 2 0 0,
        Detected 0], Inl AssertionError)) \<and>
   (locate_boundaries test_args [0, 0, 4, 0, 0, -4, 0, 0, 4, 0, 0, 0] 5 [0, 3, 0, -3, 1, 0, 0, 0] =
      Inr (TestSignalBounds 1 8, 1, 8, [0, 4, 0, 0, - 4, 0, 0]) \<and>
    upsample hold_library test_args 50 1 8 [0, 4, 0, 0, - 4, 0, 0] =
      Inr (Upsampling 2 100, 2, 100, 2, 16, [0, 0, 4, 4, 0, 0, 0, 0, - 4, - 4, 0, 0, 0, 0]) \<and>
    detect_edges hold_library test_args 100 [0, 0, 4, 4, 0, 0, 0, 0, - 4, - 4, 0, 0, 0, 0] =
      ([SlopeRange (- 4) 4, FindingEdges (6 / 5) (6 / 5) 2 2 (6 / 5) (6 / 5), Detected 2],
       Inr [(2, True), (8, False)]) \<and>
    analyze_recording hold_library test_args 50 [0, 0, 4, 0, 0, -4, 0, 0, 4, 0, 0, 0] 5
      [0, 3, 0, -3, 1, 0, 0, 0] =
      ([TestSignalBounds 1 8, Upsampling 2 100, SlopeRange (- 4) 4,
        FindingEdges (6 / 5) (6 / 5) 2 2 (6 / 5) (6 / 5), Detected 2,
        Deduced True False Black White],
       Inr [Header ''recording_timestamp_seconds'' ''frame'', Row (1 / 25) True,
            Row (1 / 10) False]))"
  (is "?few \<and> ?none \<and> ?full")
proof -
  have few: ?few
    by code_simp
  have none: ?none
    by code_simp
  have full: ?full
    by code_simp
  from fatal_detection_failures [where lib = hold_library and a = test_args
      and recording_sample_rate = 50
      and recording_slope = "[0, 0, 4, 0, 0, -4, 0, 0, 4, 0, 0, 0]" and reference_size = 5
      and cross_correlation = "[0, 3, 0, 0, 0, 0, 0, 1]"]
    conjI [OF few conjI [OF none full]]
  show ?thesis
    by - assumption
qed

text \<open>
  Claim C7. When the first and last edges have the same polarity, the resolver prints
  the warning of line 335 and returns the edge set as it is (booleans and offsets),
  and the run still writes the header and one row per edge, with those booleans.
\<close>

theorem ambiguous_polarity_nonfatal:
  assumes "edges \<noteq> []" and "snd (hd edges) = snd (last edges)"
  shows "resolve_polarity edges = Inr (SamePolarityWarning (snd (hd edges)), edges) \<and>
         (\<forall>bounds start_index end_index trimmed upsampling ratio rate' start' end' upsampled
             printed.
            locate_boundaries a recording_slope reference_size cross_correlation =
              Inr (bounds, start_index, end_index, trimmed) \<and>
            upsample lib a recording_sample_rate start_index end_index trimmed =
              Inr (upsampling, ratio, rate', start', end', upsampled) \<and>
            detect_edges lib a rate' upsampled = (printed, Inr edges) \<longrightarrow>
            analyze_recording lib a recording_sample_rate recording_slope reference_size
              cross_correlation =
              ([bounds, upsampling] @ printed @ [SamePolarityWarning (snd (hd edges))],
               Inr (Header ''recording_timestamp_seconds'' ''frame'' #
                    map (\<lambda>(offset, frame). Row ((real offset + start') / rate') frame) edges)))"
proof -
  have resolve: "resolve_polarity edges = Inr (SamePolarityWarning (snd (hd edges)), edges)"
    using assms by (simp add: resolve_polarity_def)
  then have written: "resolve_and_write edges start rate =
      Inr (SamePolarityWarning (snd (hd edges)),
           Header ''recording_timestamp_seconds'' ''frame'' #
           map (\<lambda>(offset, frame). Row ((real offset + start) / rate) frame) edges)" for start rate
    by (simp add: resolve_and_write_def to_csv_def timestamps_def split_def)
  show ?thesis
  proof (intro conjI allI impI resolve)
    fix bounds start_index end_index trimmed upsampling ratio rate' start' end' upsampled
      printed
    assume stages: "locate_boundaries a recording_slope reference_size cross_correlation =
              Inr (bounds, start_index, end_index, trimmed) \<and>
            upsample lib a recording_sample_rate start_index end_index trimmed =
              Inr (upsampling, ratio, rate', start', end', upsampled) \<and>
            detect_edges lib a rate' upsampled = (printed, Inr edges)"
    note run = analyze_recording_stages [OF stages [THEN conjunct1]
      stages [THEN conjunct2, THEN conjunct1] stages [THEN conjunct2, THEN conjunct2]]
    show "analyze_recording lib a recording_sample_rate recording_slope reference_size
              cross_correlation =
              ([bounds, upsampling] @ printed @ [SamePolarityWarning (snd (hd edges))],
               Inr (Header ''recording_timestamp_seconds'' ''frame'' #
                    map (\<lambda>(offset, frame). Row ((real offset + start') / rate') frame) edges))"
      unfolding run written using assms(1) by simp
  qed
qed

theorem ambiguous_polarity_nonfatal_witness:
  "locate_boundaries test_args [0, 0, 4, 0, 0, -4, 0, 0, 4, 0, 0, 0] 5 [0, 3, 0, 0, 0, 0, -3, 1] =
     Inr (TestSignalBounds 1 11, 1, 11, [0, 4, 0, 0, - 4, 0, 0, 4, 0, 0]) \<and>
   upsample hold_library test_args 50 1 11 [0, 4, 0, 0, - 4, 0, 0, 4, 0, 0] =
     Inr (Upsampling 2 100, 2, 100, 2, 22,
          [0, 0, 4, 4, 0, 0, 0, 0, - 4, - 4, 0, 0, 0, 0, 4, 4, 0, 0, 0, 0]) \<and>
   detect_edges hold_library test_args 100
     [0, 0, 4, 4, 0, 0, 0, 0, - 4, - 4, 0, 0, 0, 0, 4, 4, 0, 0, 0, 0] =
     ([SlopeRange (- 4) 4, FindingEdges (6 / 5) (6 / 5) 2 2 (6 / 5) (6 / 5), Detected 3],
      Inr [(2, True), (8, False), (14, True)]) \<and>
   resolve_polarity [(2::nat, True), (8, False), (14, True)] =
     Inr (SamePolarityWarning True, [(2, True), (8, False), (14, True)]) \<and>
   analyze_recording hold_library test_args 50 [0, 0, 4, 0, 0, -4, 0, 0, 4, 0, 0, 0] 5
     [0, 3, 0, 0, 0, 0, -3, 1] =
     ([TestSignalBounds 1 11, Upsampling 2 100, SlopeRange (- 4) 4,
       FindingEdges (6 / 5) (6 / 5) 2 2 (6 / 5) (6 / 5), Detected 3, SamePolarityWarning True],
      Inr [Header ''recording_timestamp_seconds'' ''frame'', Row (1 / 25) True,
           Row (1 / 10) False, Row (4 / 25) True])"
  (is ?run)
proof -
  have run: ?run
    by code_simp
  have "[(2::nat, True), (8, False), (14, True)] \<noteq> []"
    "snd (hd [(2::nat, True), (8, False), (14, True)]) =
     snd (last [(2::nat, True), (8, False), (14, True)])"
    by simp_all
  from ambiguous_polarity_nonfatal [OF this, where lib = hold_library and a = test_args
      and recording_sample_rate = 50
      and recording_slope = "[0, 0, 4, 0, 0, -4, 0, 0, 4, 0, 0, 0]" and reference_size = 5
      and cross_correlation = "[0, 3, 0, 0, 0, 0, -3, 1]"] run
  show ?thesis
    by - assumption
qed

text \<open>
  Claim C8. When the run reaches the output with a sample rate and a timestamp
  resolution above zero, it writes one row per edge in the order of the edge set; the
  timestamp of a row is (offset + start offset * ratio) / (rate * ratio), that is, the
  start offset and the rate in the upsampled coordinates; the timestamps are strictly
  ascending.
\<close>

theorem output_formatter:
  assumes "locate_boundaries a recording_slope reference_size cross_correlation =
             Inr (bounds, start_index, end_index, trimmed)"
    and "upsample lib a recording_sample_rate start_index end_index trimmed =
             Inr (upsampling, ratio, rate', start', end', upsampled)"
    and "detect_edges lib a rate' upsampled = (printed, Inr edges)"
    and "edges \<noteq> []"
    and "0 < recording_sample_rate" and "0 < timestamp_resolution_seconds a"
  shows "\<exists>msg resolved.
           resolve_polarity edges = Inr (msg, resolved) \<and>
           map fst resolved = map fst edges \<and>
           start' = real start_index * ratio \<and>
           rate' = recording_sample_rate * ratio \<and>
           stdout (analyze_recording lib a recording_sample_rate recording_slope
                     reference_size cross_correlation) =
             Header ''recording_timestamp_seconds'' ''frame'' #
             map (\<lambda>(offset, frame). Row ((real offset + start') / rate') frame) resolved \<and>
           sorted_wrt (<) (map (\<lambda>(offset, frame). (real offset + start') / rate') resolved)"
proof -
  from resolve_and_write_Inr [OF assms(4), of start' rate'] obtain msg resolved where
    r: "resolve_polarity edges = Inr (msg, resolved)" "map fst resolved = map fst edges"
      "resolve_and_write edges start' rate' = Inr (msg, to_csv (timestamps resolved start' rate'))"
    by blast
  note u = upsample_rate [OF assms(2)]
  have "1 \<le> upsample_ratio a recording_sample_rate"
    using assms(6,5) by (rule upsample_ratio_ge_1)
  with u(2) have "1 \<le> ratio" by simp
  with assms(5) u(3) have pos: "0 < rate'" by simp
  have "sorted_wrt (<) (map fst resolved)"
    unfolding r(2) using assms(3) by (rule detect_edges_offsets)
  from timestamps_strict [OF this pos, of start']
  have strict: "sorted_wrt (<) (map (\<lambda>(offset, frame). (real offset + start') / rate') resolved)"
    by (simp add: timestamps_def split_def comp_def)
  have out: "stdout (analyze_recording lib a recording_sample_rate recording_slope
                     reference_size cross_correlation) =
             Header ''recording_timestamp_seconds'' ''frame'' #
             map (\<lambda>(offset, frame). Row ((real offset + start') / rate') frame) resolved"
    unfolding analyze_recording_stages [OF assms(1-3)] using assms(4) r(3)
    by (simp add: stdout_def to_csv_def timestamps_def split_def comp_def)
  from r(1,2) u(3,4) out strict show ?thesis
    by blast
qed

theorem output_formatter_witness:
  "stdout (analyze_recording hold_library test_args 50 [0, 0, 4, 0, 0, -4, 0, 0, 4, 0, 0, 0] 5
      [0, 3, 0, -3, 1, 0, 0, 0]) =
     [Header ''recording_timestamp_seconds'' ''frame'',
      Row ((2 + 1 * 2) / (50 * 2)) True, Row ((8 + 1 * 2) / (50 * 2)) False] \<and>
   sorted_wrt (<) [(2 + 1 * 2) / (50 * 2), (8 + 1 * 2) / (50 * 2) :: real]"
  (is ?run)
proof -
  have run: ?run
    by code_simp
  have stages:
    "locate_boundaries test_args [0, 0, 4, 0, 0, -4, 0, 0, 4, 0, 0, 0] 5 [0, 3, 0, -3, 1, 0, 0, 0] =
      Inr (TestSignalBounds 1 8, 1, 8, [0, 4, 0, 0, - 4, 0, 0])"
    "upsample hold_library test_args 50 1 8 [0, 4, 0, 0, - 4, 0, 0] =
      Inr (Upsampling 2 100, 2, 100, 2, 16, [0, 0, 4, 4, 0, 0, 0, 0, - 4, - 4, 0, 0, 0, 0])"
    "detect_edges hold_library test_args 100 [0, 0, 4, 4, 0, 0, 0, 0, - 4, - 4, 0, 0, 0, 0] =
      ([SlopeRange (- 4) 4, FindingEdges (6 / 5) (6 / 5) 2 2 (6 / 5) (6 / 5), Detected 2],
       Inr [(2, True), (8, False)])"
    by code_simp+
  have more: "[(2::nat, True), (8, False)] \<noteq> []" "0 < (50::real)"
    "0 < timestamp_resolution_seconds test_args"
    by (simp_all add: test_args_def)
  from output_formatter [OF stages more] run
  show ?thesis
    by - assumption
qed

end
